theory Spec2Isabelle
  imports Main
begin

section \<open>ConfigurationFactory.cxx: selecting a back end from a URI\<close>

subsection \<open>Data\<close>

text \<open>
  \<^verbatim>\<open>http::url\<close>, the result of \<^verbatim>\<open>http::ParseHttpUrl\<close>. The factory reads the four fields
  below. The parser itself (\<^verbatim>\<open>UriParser/UriParser.hpp\<close>) is not part of the sources at
  hand, so every definition that parses takes it as the parameter \<open>ParseHttpUrl\<close>.
\<close>

record url =
  protocol :: string
  host :: string
  path :: string
  port :: int

text \<open>
  The two preprocessor switches of the build. \<^verbatim>\<open>#ifdef X\<close> is the field \<open>X\<close> being true.
\<close>

record build =
  FLP_CONFIGURATION_BACKEND_FILE_JSON_ENABLED :: bool
  FLP_CONFIGURATION_BACKEND_CONSUL_ENABLED :: bool

text \<open>
  What the factory throws is a \<^verbatim>\<open>std::runtime_error\<close> carrying a message. Whatever a
  back end's constructor or \<^verbatim>\<open>setPrefix\<close> throws passes through the factory unchanged;
  it is kept apart as \<open>backend_failure\<close>.
\<close>

datatype 'e exception = runtime_error string | backend_failure 'e

text \<open>
  The dynamic type of the object behind the returned \<^verbatim>\<open>ConfigurationInterface\<close> pointer.
  The three back-end classes are not part of the sources at hand: their objects are the
  type parameters \<open>'f\<close>, \<open>'j\<close> and \<open>'c\<close>.
\<close>

datatype ('f, 'j, 'c) ConfigurationInterface =
  FileBackend 'f | JsonBackend 'j | ConsulBackend 'c

text \<open>
  \<^verbatim>\<open>std::unique_ptr<ConfigurationInterface>\<close>: \<open>None\<close> is the null pointer,
  \<open>Some b\<close> owns the object \<open>b\<close>. \<^verbatim>\<open>std::make_unique\<close> always gives \<open>Some\<close>.
\<close>

type_synonym ('f, 'j, 'c) UniqueConfiguration = "('f, 'j, 'c) ConfigurationInterface option"

text \<open>
  The operations of the absent back-end classes that the factory calls: the three
  constructors and \<^verbatim>\<open>ConsulBackend::setPrefix\<close>. Each may throw (\<open>Inl\<close>);
  \<^verbatim>\<open>setPrefix\<close> mutates the object, so it returns the object after the call.
\<close>

record ('e, 'f, 'j, 'c) Backends =
  FileBackend_ctor :: "string \<Rightarrow> 'e + 'f"
  JsonBackend_ctor :: "string \<Rightarrow> 'e + 'j"
  ConsulBackend_ctor :: "string \<Rightarrow> int \<Rightarrow> 'e + 'c"
  ConsulBackend_setPrefix :: "'c \<Rightarrow> string \<Rightarrow> 'e + 'c"

text \<open>
  The calls made into the back-end classes, in program order. Every function of the
  factory returns its result together with the calls it made.
\<close>

datatype call =
  Construct_File string
  | Construct_Json string
  | Construct_Consul string int
  | Call_setPrefix string

type_synonym ('e, 'f, 'j, 'c) outcome =
  "('e exception + ('f, 'j, 'c) UniqueConfiguration) \<times> call list"

subsection \<open>The three constructors of the dispatch map\<close>

definition getFile ::
  "('e, 'f, 'j, 'c) Backends \<Rightarrow> url \<Rightarrow> ('e, 'f, 'j, 'c) outcome" where
  "getFile env uri =
     (let p = ''/'' @ host uri @ path uri in
      case FileBackend_ctor env p of
        Inl e \<Rightarrow> (Inl (backend_failure e), [Construct_File p])
      | Inr f \<Rightarrow> (Inr (Some (FileBackend f)), [Construct_File p]))"

definition getJson ::
  "('e, 'f, 'j, 'c) Backends \<Rightarrow> build \<Rightarrow> url \<Rightarrow> ('e, 'f, 'j, 'c) outcome" where
  "getJson env bld uri =
     (if FLP_CONFIGURATION_BACKEND_FILE_JSON_ENABLED bld then
        (let p = ''/'' @ host uri @ path uri in
         case JsonBackend_ctor env p of
           Inl e \<Rightarrow> (Inl (backend_failure e), [Construct_Json p])
         | Inr j \<Rightarrow> (Inr (Some (JsonBackend j)), [Construct_Json p]))
      else (Inl (runtime_error ''Back-end 'json' not enabled''), []))"

definition getConsul ::
  "('e, 'f, 'j, 'c) Backends \<Rightarrow> build \<Rightarrow> url \<Rightarrow> ('e, 'f, 'j, 'c) outcome" where
  "getConsul env bld uri =
     (if FLP_CONFIGURATION_BACKEND_CONSUL_ENABLED bld then
        (case ConsulBackend_ctor env (host uri) (port uri) of
           Inl e \<Rightarrow> (Inl (backend_failure e), [Construct_Consul (host uri) (port uri)])
         | Inr consul \<Rightarrow>
             if path uri \<noteq> [] then
               (case ConsulBackend_setPrefix env consul (path uri) of
                  Inl e \<Rightarrow>
                    (Inl (backend_failure e),
                     [Construct_Consul (host uri) (port uri), Call_setPrefix (path uri)])
                | Inr consul' \<Rightarrow>
                    (Inr (Some (ConsulBackend consul')),
                     [Construct_Consul (host uri) (port uri), Call_setPrefix (path uri)]))
             else (Inr (Some (ConsulBackend consul)), [Construct_Consul (host uri) (port uri)]))
      else (Inl (runtime_error ''Back-end 'consul' not enabled''), []))"

subsection \<open>getConfiguration\<close>

text \<open>
  The \<^verbatim>\<open>static const std::map\<close> from scheme to constructor, as an association list
  searched with \<open>map_of\<close> (the keys are distinct).
\<close>

definition dispatch_map ::
  "('e, 'f, 'j, 'c) Backends \<Rightarrow> build \<Rightarrow>
     (string \<times> (url \<Rightarrow> ('e, 'f, 'j, 'c) outcome)) list" where
  "dispatch_map env bld =
     [(''file'', getFile env), (''json'', getJson env bld), (''consul'', getConsul env bld)]"

definition getConfiguration ::
  "('e, 'f, 'j, 'c) Backends \<Rightarrow> build \<Rightarrow> (string \<Rightarrow> url) \<Rightarrow> string \<Rightarrow>
     ('e, 'f, 'j, 'c) outcome" where
  "getConfiguration env bld ParseHttpUrl uri =
     (let parsedUrl = ParseHttpUrl uri in
      if protocol parsedUrl = [] then (Inl (runtime_error ''Ill-formed URI''), [])
      else
        (case map_of (dispatch_map env bld) (protocol parsedUrl) of
           Some constructor \<Rightarrow> constructor parsedUrl
         | None \<Rightarrow> (Inl (runtime_error ''Unrecognized backend''), [])))"

section \<open>Configuration.cxx: the class configFile\<close>

subsection \<open>What the class takes from Boost\<close>

text \<open>
  \<^verbatim>\<open>boost::algorithm::starts_with\<close> and \<^verbatim>\<open>ends_with\<close> on character sequences.
\<close>

definition starts_with :: "string \<Rightarrow> string \<Rightarrow> bool" where
  "starts_with input test = (take (length test) input = test)"

definition ends_with :: "string \<Rightarrow> string \<Rightarrow> bool" where
  "ends_with input test =
     (length test \<le> length input \<and> drop (length input - length test) input = test)"

text \<open>
  \<^verbatim>\<open>boost::property_tree::ini_parser::ini_parser_error\<close>: the three accessors that
  \<^verbatim>\<open>load\<close> reads. A line of 0 means that the parser gave no line.
\<close>

record ini_parser_error =
  perr_message :: string
  perr_filename :: string
  perr_line :: nat

text \<open>
  \<^verbatim>\<open>operator<<\<close> of an output stream on an unsigned integer: its decimal digits.
\<close>

definition digit_char :: "nat \<Rightarrow> char" where
  "digit_char d = char_of (48 + d)"

fun show_nat :: "nat \<Rightarrow> string" where
  "show_nat n = (if n < 10 then [digit_char n] else show_nat (n div 10) @ [digit_char (n mod 10)])"

subsection \<open>configFile::load\<close>

definition PREFIX_FILE :: string where
  "PREFIX_FILE = ''file:''"

definition SUFFIX_FILE_INI :: "string list" where
  "SUFFIX_FILE_INI = [''.ini'', ''.cfg'']"

text \<open>
  The message built in the \<^verbatim>\<open>catch\<close> block from the parser's error.
\<close>

definition parse_error_text :: "ini_parser_error \<Rightarrow> string" where
  "parse_error_text perr =
     (if perr_line perr \<noteq> 0 then
        perr_message perr @ '' in '' @ perr_filename perr @ '' line '' @ show_nat (perr_line perr)
      else perr_message perr @ '' '' @ perr_filename perr)"

text \<open>
  The loop \<^verbatim>\<open>for (auto suffix : suffix_ini)\<close> with the statement after it. The parser
  \<^verbatim>\<open>read_ini\<close> belongs to Boost: it is the parameter \<open>read_ini\<close>, from the file name
  and the tree held by the object to a parse error or the tree read. What \<^verbatim>\<open>load\<close>
  throws is a \<^verbatim>\<open>std::string\<close>: \<open>Inl\<close> of that string.
\<close>

fun load_suffixes ::
  "(string \<Rightarrow> 'pt \<Rightarrow> ini_parser_error + 'pt) \<Rightarrow> 'pt \<Rightarrow> string \<Rightarrow> string list \<Rightarrow> string + 'pt"
  where
  "load_suffixes read_ini pt filename [] = Inl ''Invalid type in file name''"
| "load_suffixes read_ini pt filename (suffix # rest) =
     (if ends_with filename suffix then
        (case read_ini filename pt of
           Inl perr \<Rightarrow> Inl (parse_error_text perr)
         | Inr pt' \<Rightarrow> Inr pt')
      else load_suffixes read_ini pt filename rest)"

text \<open>
  \<^verbatim>\<open>load(const char *path)\<close>: \<open>None\<close> is the null pointer. The result is the tree
  of the object after the call, or the string thrown.
\<close>

definition load ::
  "(string \<Rightarrow> 'pt \<Rightarrow> ini_parser_error + 'pt) \<Rightarrow> 'pt \<Rightarrow> string option \<Rightarrow> string + 'pt" where
  "load read_ini pt path_arg =
     (case path_arg of
        None \<Rightarrow> Inl ''Invalid argument''
      | Some p \<Rightarrow>
          if starts_with p PREFIX_FILE then
            (let filename = drop (length PREFIX_FILE) p in
             load_suffixes read_ini pt filename SUFFIX_FILE_INI)
          else Inl ''Invalid path prefix'')"

subsection \<open>configFile::getValue\<close>

text \<open>
  The tree \<^verbatim>\<open>dPtr->pt\<close> is a \<^verbatim>\<open>boost::property_tree::ptree\<close>. Its \<^verbatim>\<open>get<T>(key)\<close>
  throws \<^verbatim>\<open>ptree_bad_path\<close> when the tree has no node at the key, and
  \<^verbatim>\<open>ptree_bad_data\<close> when the data of that node does not translate to \<^verbatim>\<open>T\<close>. Both
  derive from \<^verbatim>\<open>ptree_error\<close>, which the \<^verbatim>\<open>catch\<close> clause of every \<^verbatim>\<open>getValue\<close>
  rethrows as the \<^verbatim>\<open>std::string\<close> of \<^verbatim>\<open>e.what()\<close>. Boost is not part of the
  sources: the tree is a function from a key to the data of the node there, if there is
  one, and the text \<open>what\<close> of an error and the translations of data to \<^verbatim>\<open>int\<close>
  and \<^verbatim>\<open>float\<close> are parameters.
\<close>

datatype ptree_error = ptree_bad_path string | ptree_bad_data string

type_synonym ptree = "string \<Rightarrow> string option"

text \<open>
  \<^verbatim>\<open>getValue(const char *key, std::string &value)\<close>: \<open>Inr\<close> is the value assigned to
  the reference, \<open>Inl\<close> the string thrown.
\<close>

definition getValue_string :: "(ptree_error \<Rightarrow> string) \<Rightarrow> ptree \<Rightarrow> string \<Rightarrow> string + string" where
  "getValue_string what pt key =
     (case pt key of
        None \<Rightarrow> Inl (what (ptree_bad_path key))
      | Some d \<Rightarrow> Inr d)"

text \<open>
  \<^verbatim>\<open>getValue(const char *key, int &value)\<close> and \<^verbatim>\<open>getValue(const char *key, float &value)\<close>,
  which differ in the translation only.
\<close>

definition getValue_int ::
  "(ptree_error \<Rightarrow> string) \<Rightarrow> (string \<Rightarrow> int option) \<Rightarrow> ptree \<Rightarrow> string \<Rightarrow> string + int" where
  "getValue_int what translate pt key =
     (case pt key of
        None \<Rightarrow> Inl (what (ptree_bad_path key))
      | Some d \<Rightarrow>
          (case translate d of
             None \<Rightarrow> Inl (what (ptree_bad_data d))
           | Some n \<Rightarrow> Inr n))"

definition getValue_float ::
  "(ptree_error \<Rightarrow> string) \<Rightarrow> (string \<Rightarrow> 'd option) \<Rightarrow> ptree \<Rightarrow> string \<Rightarrow> string + 'd" where
  "getValue_float what translate pt key =
     (case pt key of
        None \<Rightarrow> Inl (what (ptree_bad_path key))
      | Some d \<Rightarrow>
          (case translate d of
             None \<Rightarrow> Inl (what (ptree_bad_data d))
           | Some x \<Rightarrow> Inr x))"

section \<open>ConfigurationInterface: the contract of a back end\<close>

text \<open>
  \<^verbatim>\<open>ConfigurationInterface.h\<close> declares the operations; \<^verbatim>\<open>getString\<close>,
  \<^verbatim>\<open>putString\<close>, \<^verbatim>\<open>setPrefix\<close>, \<^verbatim>\<open>setPathSeparator\<close>, \<^verbatim>\<open>resetPathSeparator\<close>,
  \<^verbatim>\<open>getRecursive\<close> and \<^verbatim>\<open>getRecursiveMap\<close> are pure virtual there, and neither a
  back end implementing them, nor \<^verbatim>\<open>ConfigurationInterface.cxx\<close> with the default
  \<^verbatim>\<open>getInt\<close>, \<^verbatim>\<open>getFloat\<close> and \<^verbatim>\<open>exists\<close>, nor \<^verbatim>\<open>Tree.h\<close> is among the sources at
  hand. Every definition of this section is therefore modelled from the specification.
\<close>

subsection \<open>Paths\<close>

text \<open>
  Modelled from the spec: the splitting of a path into its segments, which belongs to
  the absent back ends. "Path: a string composed of segments separated by a configurable
  separator character." \<open>split_on\<close> cuts at every occurrence of the separator.
\<close>

fun split_on :: "char \<Rightarrow> string \<Rightarrow> string list" where
  "split_on sep [] = [[]]"
| "split_on sep (c # cs) =
     (if c = sep then [] # split_on sep cs
      else (case split_on sep cs of
              [] \<Rightarrow> [[c]]
            | s # ss \<Rightarrow> (c # s) # ss))"

text \<open>
  Modelled from the spec: the segments of a path, for the absent back ends. The empty
  path has no segment, so that an empty prefix adds nothing to a path.
\<close>

definition segments :: "char \<Rightarrow> string \<Rightarrow> string list" where
  "segments sep s = (if s = [] then [] else split_on sep s)"

text \<open>
  Modelled from the spec: the full key of a list of segments, for the absent back ends:
  "segments joined by a separator character".
\<close>

fun join_with :: "char \<Rightarrow> string list \<Rightarrow> string" where
  "join_with sep [] = []"
| "join_with sep [s] = s"
| "join_with sep (s # t # ss) = s @ sep # join_with sep (t # ss)"

subsection \<open>The state of a back end\<close>

text \<open>
  \<^verbatim>\<open>KeyValueMap\<close> is declared in the header as an unordered map from string to string:
  an association list, read with \<open>map_of\<close>.
\<close>

type_synonym KeyValueMap = "(string \<times> string) list"

text \<open>
  Modelled from the spec: the state of a back end instance, whose classes are absent.
  "Backend instance: owns its connection/handle to the underlying medium, its current
  prefix, and its current separator." The medium is the flat set of full-key/value
  pairs, the full keys written with the default separator.
\<close>

record Backend =
  mStore :: KeyValueMap
  mPrefix :: string
  mSeparator :: char

text \<open>
  Modelled from the spec: the default separator of the absent back ends, "default /".
\<close>

definition DEFAULT_SEPARATOR :: char where
  "DEFAULT_SEPARATOR = CHR ''/''"

text \<open>
  Modelled from the spec: the storage location that a path passed to put/get addresses,
  for the absent back ends. The prefix is prepended to every path; the active separator
  interprets the path, "but not the prefix itself or the originating URI, which always
  use the default separator".
\<close>

definition location :: "Backend \<Rightarrow> string \<Rightarrow> string list" where
  "location b p = segments DEFAULT_SEPARATOR (mPrefix b) @ segments (mSeparator b) p"

text \<open>
  Modelled from the spec: the full key under which the absent back ends store the value
  of a location.
\<close>

definition fullKey :: "Backend \<Rightarrow> string \<Rightarrow> string" where
  "fullKey b p = join_with DEFAULT_SEPARATOR (location b p)"

subsection \<open>The mandatory primitives\<close>

text \<open>
  Modelled from the spec: \<^verbatim>\<open>putString\<close> of the absent back ends, "stores a string at
  path; side effect: persists/updates state in the backend medium".
\<close>

definition putString :: "Backend \<Rightarrow> string \<Rightarrow> string \<Rightarrow> Backend" where
  "putString b p v =
     b\<lparr>mStore := (fullKey b p, v) # filter (\<lambda>kv. fst kv \<noteq> fullKey b p) (mStore b)\<rparr>"

text \<open>
  Modelled from the spec: \<^verbatim>\<open>getString\<close> of the absent back ends, "returns the stored
  string, or an empty result if the path does not exist"; \<open>None\<close> is the empty optional.
\<close>

definition getString :: "Backend \<Rightarrow> string \<Rightarrow> string option" where
  "getString b p = map_of (mStore b) (fullKey b p)"

text \<open>
  Modelled from the spec: \<^verbatim>\<open>exists\<close>, whose default implementation is absent,
  "reports whether a value is present at path".
\<close>

definition exists :: "Backend \<Rightarrow> string \<Rightarrow> bool" where
  "exists b p = (getString b p \<noteq> None)"

text \<open>
  Modelled from the spec: \<^verbatim>\<open>setPrefix\<close> of the absent back ends, "sets a path prefix
  applied to all subsequent put/get calls on this instance".
\<close>

definition setPrefix :: "Backend \<Rightarrow> string \<Rightarrow> Backend" where
  "setPrefix b pre = b\<lparr>mPrefix := pre\<rparr>"

text \<open>
  Modelled from the spec: \<^verbatim>\<open>setPathSeparator\<close> and \<^verbatim>\<open>resetPathSeparator\<close> of the
  absent back ends, "overrides/resets the separator used to interpret paths passed to
  put/get".
\<close>

definition setPathSeparator :: "Backend \<Rightarrow> char \<Rightarrow> Backend" where
  "setPathSeparator b sep = b\<lparr>mSeparator := sep\<rparr>"

definition resetPathSeparator :: "Backend \<Rightarrow> Backend" where
  "resetPathSeparator b = b\<lparr>mSeparator := DEFAULT_SEPARATOR\<rparr>"

subsection \<open>Sequences of calls on one instance\<close>

text \<open>
  Modelled from the spec: the calls that change an instance of the absent back ends, as
  data, so that "paths not previously written" can be said of a history of calls.
\<close>

datatype operation =
  PutString string string
  | SetPrefix string
  | SetPathSeparator char
  | ResetPathSeparator

fun perform :: "Backend \<Rightarrow> operation \<Rightarrow> Backend" where
  "perform b (PutString p v) = putString b p v"
| "perform b (SetPrefix pre) = setPrefix b pre"
| "perform b (SetPathSeparator sep) = setPathSeparator b sep"
| "perform b ResetPathSeparator = resetPathSeparator b"

fun run :: "Backend \<Rightarrow> operation list \<Rightarrow> Backend" where
  "run b [] = b"
| "run b (x # xs) = run (perform b x) xs"

text \<open>
  Modelled from the spec: the full keys that a history of calls has written, each taken
  in the state in which its \<^verbatim>\<open>putString\<close> ran.
\<close>

fun written :: "Backend \<Rightarrow> operation list \<Rightarrow> string list" where
  "written b [] = []"
| "written b (PutString p v # xs) = fullKey b p # written (perform b (PutString p v)) xs"
| "written b (x # xs) = written (perform b x) xs"

subsection \<open>The derived typed getters\<close>

text \<open>
  Modelled from the spec: the error of a failed conversion in the absent
  \<^verbatim>\<open>ConfigurationInterface.cxx\<close>; the header names \<^verbatim>\<open>boost::lexical_cast\<close>, which
  throws \<^verbatim>\<open>bad_lexical_cast\<close>.
\<close>

datatype conversion_error = bad_lexical_cast

text \<open>
  Modelled from the spec: the "strict numeric parse" to \<^verbatim>\<open>int\<close> used by the absent
  default \<^verbatim>\<open>getInt\<close>. A valid representation is an optional sign followed by one or
  more decimal digits and nothing else, with a value that a 32-bit \<^verbatim>\<open>int\<close> holds.
\<close>

definition is_digit :: "char \<Rightarrow> bool" where
  "is_digit c = (48 \<le> (of_char c :: nat) \<and> (of_char c :: nat) \<le> 57)"

fun digits_value :: "nat \<Rightarrow> string \<Rightarrow> nat option" where
  "digits_value acc [] = Some acc"
| "digits_value acc (c # cs) =
     (if is_digit c then digits_value (10 * acc + (of_char c - 48)) cs else None)"

definition unsigned_value :: "string \<Rightarrow> nat option" where
  "unsigned_value s = (if s = [] then None else digits_value 0 s)"

definition in_int_range :: "int \<Rightarrow> int option" where
  "in_int_range n = (if - 2147483648 \<le> n \<and> n \<le> 2147483647 then Some n else None)"

definition lexical_cast_int :: "string \<Rightarrow> int option" where
  "lexical_cast_int s =
     (case s of
        [] \<Rightarrow> None
      | c # cs \<Rightarrow>
          if c = CHR ''-'' then
            (case unsigned_value cs of None \<Rightarrow> None | Some n \<Rightarrow> in_int_range (- int n))
          else if c = CHR ''+'' then
            (case unsigned_value cs of None \<Rightarrow> None | Some n \<Rightarrow> in_int_range (int n))
          else
            (case unsigned_value s of None \<Rightarrow> None | Some n \<Rightarrow> in_int_range (int n)))"

text \<open>
  Modelled from the spec: the default \<^verbatim>\<open>getInt\<close> of the absent
  \<^verbatim>\<open>ConfigurationInterface.cxx\<close>: "call getString; if present, attempt a strict
  numeric parse; fail with a conversion error if the stored string is not a valid
  representation of the requested type; otherwise return the parsed value wrapped in the
  optional, or an empty optional if the key was absent".
\<close>

definition getInt :: "Backend \<Rightarrow> string \<Rightarrow> conversion_error + int option" where
  "getInt b p =
     (case getString b p of
        None \<Rightarrow> Inr None
      | Some s \<Rightarrow>
          (case lexical_cast_int s of
             None \<Rightarrow> Inl bad_lexical_cast
           | Some n \<Rightarrow> Inr (Some n)))"

text \<open>
  Modelled from the spec: the default \<^verbatim>\<open>getFloat\<close> of the absent
  \<^verbatim>\<open>ConfigurationInterface.cxx\<close>, by the same sentence. Floating-point numbers are not
  modelled: the strict parse to \<^verbatim>\<open>double\<close> is the parameter \<open>lexical_cast_double\<close>,
  which gives \<open>None\<close> for a string that is not a valid representation.
\<close>

definition getFloat ::
  "(string \<Rightarrow> 'd option) \<Rightarrow> Backend \<Rightarrow> string \<Rightarrow> conversion_error + 'd option" where
  "getFloat lexical_cast_double b p =
     (case getString b p of
        None \<Rightarrow> Inr None
      | Some s \<Rightarrow>
          (case lexical_cast_double s of
             None \<Rightarrow> Inl bad_lexical_cast
           | Some x \<Rightarrow> Inr (Some x)))"

subsection \<open>Tree::Node and the recursive get\<close>

text \<open>
  Modelled from the spec: \<^verbatim>\<open>Tree::Node\<close> of the absent \<^verbatim>\<open>Tree.h\<close>: "a node has an
  optional scalar value and a mapping from child-segment-name to child Node".
\<close>

datatype Node = Node (nodeValue: "string option") (children: "(string \<times> Node) list")

text \<open>
  Modelled from the spec: replacing or adding one child of a node, for the absent tree
  assembly.
\<close>

fun put_child :: "string \<Rightarrow> Node \<Rightarrow> (string \<times> Node) list \<Rightarrow> (string \<times> Node) list" where
  "put_child s n [] = [(s, n)]"
| "put_child s n ((k, m) # cs) = (if k = s then (s, n) # cs else (k, m) # put_child s n cs)"

text \<open>
  Modelled from the spec: one step of the absent tree assembly: "walk/create the path of
  intermediate nodes (no scalar value, only child links) for all segments but the last;
  attach the scalar value to the node denoted by the final segment".
\<close>

fun insert_at :: "string list \<Rightarrow> string \<Rightarrow> Node \<Rightarrow> Node" where
  "insert_at [] v n = Node (Some v) (children n)"
| "insert_at (s # segs) v n =
     Node (nodeValue n)
       (put_child s
          (insert_at segs v (case map_of (children n) s of None \<Rightarrow> Node None [] | Some ch \<Rightarrow> ch))
          (children n))"

text \<open>
  Modelled from the spec: the absent tree assembly, on keys already split into their
  segments: every pair is inserted into a tree that starts as a root without value and
  without children.
\<close>

definition assemble :: "(string list \<times> string) list \<Rightarrow> Node" where
  "assemble xs = fold (\<lambda>kv. insert_at (fst kv) (snd kv)) xs (Node None [])"

text \<open>
  Modelled from the spec: the absent tree assembly: "given a flat set of (full-key,
  value) pairs and a separator character: split each full key into its segments using
  the separator", and insert each.
\<close>

definition keyValuesToTree :: "char \<Rightarrow> KeyValueMap \<Rightarrow> Node" where
  "keyValuesToTree sep kvs = assemble (map (\<lambda>kv. (segments sep (fst kv), snd kv)) kvs)"

text \<open>
  Modelled from the spec: reading the assembled tree top-down along a list of segments,
  for the absent \<^verbatim>\<open>Tree.h\<close>: the node reached, and its own scalar value.
\<close>

fun lookup_node :: "Node \<Rightarrow> string list \<Rightarrow> Node option" where
  "lookup_node n [] = Some n"
| "lookup_node n (s # segs) =
     (case map_of (children n) s of None \<Rightarrow> None | Some ch \<Rightarrow> lookup_node ch segs)"

definition lookup_value :: "Node \<Rightarrow> string list \<Rightarrow> string option" where
  "lookup_value n segs = (case lookup_node n segs of None \<Rightarrow> None | Some m \<Rightarrow> nodeValue m)"

text \<open>
  Modelled from the spec: what is left of a list of segments below a given list, for the
  absent recursive get ("every key at or below path").
\<close>

fun strip_segments :: "string list \<Rightarrow> string list \<Rightarrow> string list option" where
  "strip_segments [] ks = Some ks"
| "strip_segments (p # ps) [] = None"
| "strip_segments (p # ps) (k # ks) = (if p = k then strip_segments ps ks else None)"

text \<open>
  Modelled from the spec: \<^verbatim>\<open>getRecursiveMap\<close> of the absent back ends: the fetch of
  "every key at or below path", "flattened to full-path/value pairs".
\<close>

definition getRecursiveMap :: "Backend \<Rightarrow> string \<Rightarrow> KeyValueMap" where
  "getRecursiveMap b p =
     filter (\<lambda>kv. strip_segments (location b p) (segments DEFAULT_SEPARATOR (fst kv)) \<noteq> None)
       (mStore b)"

text \<open>
  Modelled from the spec: \<^verbatim>\<open>getRecursive\<close> of the absent back ends: the same fetch,
  assembled into "the subtree rooted at the queried path", each key taken relative to
  that path.
\<close>

definition getRecursive :: "Backend \<Rightarrow> string \<Rightarrow> Node" where
  "getRecursive b p =
     assemble
       (List.map_filter
          (\<lambda>kv. case strip_segments (location b p) (segments DEFAULT_SEPARATOR (fst kv)) of
                  None \<Rightarrow> None
                | Some rel \<Rightarrow> Some (rel, snd kv))
          (mStore b))"

section \<open>The URI parser\<close>



section \<open>Properties of the factory\<close>

lemma getConfiguration_file:
  "protocol (ParseHttpUrl uri) = ''file'' \<Longrightarrow>
   getConfiguration env bld ParseHttpUrl uri = getFile env (ParseHttpUrl uri)"
  by (simp add: getConfiguration_def dispatch_map_def)


lemma getConfiguration_consul:
  "protocol (ParseHttpUrl uri) = ''consul'' \<Longrightarrow>
   getConfiguration env bld ParseHttpUrl uri = getConsul env bld (ParseHttpUrl uri)"
  by (simp add: getConfiguration_def dispatch_map_def)

lemma getFile_not_null: "fst (getFile env u) \<noteq> Inr None"
  by (simp add: getFile_def Let_def split: sum.splits)

lemma getJson_not_null: "fst (getJson env bld u) \<noteq> Inr None"
  by (simp add: getJson_def Let_def split: sum.splits)

lemma getConsul_not_null: "fst (getConsul env bld u) \<noteq> Inr None"
  by (simp add: getConsul_def split: sum.splits)

text \<open>
  Claim C1. If the parsed URI has no scheme, getConfiguration throws the runtime error
  "Ill-formed URI" and calls no back end. If the scheme is present but is none of file,
  json and consul, it throws the runtime error "Unrecognized backend" and calls no back
  end. The two errors differ, and whatever the input, the parser, the back ends and the
  build, the call never returns a null pointer.
\<close>

theorem getConfiguration_scheme_errors:
  "(protocol (ParseHttpUrl uri) = [] \<longrightarrow>
      getConfiguration env bld ParseHttpUrl uri = (Inl (runtime_error ''Ill-formed URI''), []))
   \<and> (protocol (ParseHttpUrl uri) \<noteq> [] \<and>
        protocol (ParseHttpUrl uri) \<notin> {''file'', ''json'', ''consul''} \<longrightarrow>
      getConfiguration env bld ParseHttpUrl uri =
        (Inl (runtime_error ''Unrecognized backend''), []))
   \<and> (runtime_error ''Ill-formed URI'' :: 'e exception) \<noteq> runtime_error ''Unrecognized backend''
   \<and> fst (getConfiguration env bld ParseHttpUrl uri) \<noteq> Inr None"
proof -
  have null: "fst (getConfiguration env bld ParseHttpUrl uri) \<noteq> Inr None"
    by (simp add: getConfiguration_def dispatch_map_def Let_def
        getFile_not_null getJson_not_null getConsul_not_null)
  show ?thesis
    using null by (simp add: getConfiguration_def dispatch_map_def)
qed

theorem getConfiguration_scheme_errors_witness:
  "getConfiguration
     \<lparr>FileBackend_ctor = (\<lambda>p. Inr p :: unit + string),
      JsonBackend_ctor = (\<lambda>p. Inr p),
      ConsulBackend_ctor = (\<lambda>h n. Inr (h, n, [])),
      ConsulBackend_setPrefix = (\<lambda>(h, n, ps) p. Inr (h, n, ps @ [p]))\<rparr>
     \<lparr>FLP_CONFIGURATION_BACKEND_FILE_JSON_ENABLED = True,
      FLP_CONFIGURATION_BACKEND_CONSUL_ENABLED = True\<rparr>
     (\<lambda>s. \<lparr>protocol = [], host = [], path = s, port = - 1\<rparr>) ''not-a-uri''
     = (Inl (runtime_error ''Ill-formed URI''), [])
   \<and> getConfiguration
     \<lparr>FileBackend_ctor = (\<lambda>p. Inr p :: unit + string),
      JsonBackend_ctor = (\<lambda>p. Inr p),
      ConsulBackend_ctor = (\<lambda>h n. Inr (h, n, [])),
      ConsulBackend_setPrefix = (\<lambda>(h, n, ps) p. Inr (h, n, ps @ [p]))\<rparr>
     \<lparr>FLP_CONFIGURATION_BACKEND_FILE_JSON_ENABLED = True,
      FLP_CONFIGURATION_BACKEND_CONSUL_ENABLED = True\<rparr>
     (\<lambda>s. \<lparr>protocol = ''ftp'', host = ''host'', path = ''/x'', port = - 1\<rparr>) ''ftp://host/x''
     = (Inl (runtime_error ''Unrecognized backend''), [])"
  using getConfiguration_scheme_errors
    [of "\<lambda>s. \<lparr>protocol = [], host = [], path = s, port = - 1\<rparr>" "''not-a-uri''"
        "\<lparr>FileBackend_ctor = (\<lambda>p. Inr p :: unit + string),
          JsonBackend_ctor = (\<lambda>p. Inr p),
          ConsulBackend_ctor = (\<lambda>h n. Inr (h, n, [])),
          ConsulBackend_setPrefix = (\<lambda>(h, n, ps) p. Inr (h, n, ps @ [p]))\<rparr>"
        "\<lparr>FLP_CONFIGURATION_BACKEND_FILE_JSON_ENABLED = True,
          FLP_CONFIGURATION_BACKEND_CONSUL_ENABLED = True\<rparr>"]
    getConfiguration_scheme_errors
    [of "\<lambda>s. \<lparr>protocol = ''ftp'', host = ''host'', path = ''/x'', port = - 1\<rparr>" "''ftp://host/x''"
        "\<lparr>FileBackend_ctor = (\<lambda>p. Inr p :: unit + string),
          JsonBackend_ctor = (\<lambda>p. Inr p),
          ConsulBackend_ctor = (\<lambda>h n. Inr (h, n, [])),
          ConsulBackend_setPrefix = (\<lambda>(h, n, ps) p. Inr (h, n, ps @ [p]))\<rparr>"
        "\<lparr>FLP_CONFIGURATION_BACKEND_FILE_JSON_ENABLED = True,
          FLP_CONFIGURATION_BACKEND_CONSUL_ENABLED = True\<rparr>"]
  by simp







text \<open>
  Claim C4. In a build without the JSON back end, a URI whose scheme is json makes
  getConfiguration throw the runtime error "Back-end 'json' not enabled"; in a build
  without the Consul back end, a URI whose scheme is consul makes it throw
  "Back-end 'consul' not enabled". In both cases no back end of any kind is constructed.
\<close>

theorem excluded_backend_not_enabled:
  "(protocol (ParseHttpUrl uri) = ''json'' \<and>
      \<not> FLP_CONFIGURATION_BACKEND_FILE_JSON_ENABLED bld \<longrightarrow>
        getConfiguration env bld ParseHttpUrl uri =
          (Inl (runtime_error ''Back-end 'json' not enabled''), []))
   \<and> (protocol (ParseHttpUrl uri) = ''consul'' \<and>
      \<not> FLP_CONFIGURATION_BACKEND_CONSUL_ENABLED bld \<longrightarrow>
        getConfiguration env bld ParseHttpUrl uri =
          (Inl (runtime_error ''Back-end 'consul' not enabled''), []))"
  by (simp add: getConfiguration_def dispatch_map_def getJson_def getConsul_def)

theorem excluded_backend_not_enabled_witness:
  "getConfiguration
     \<lparr>FileBackend_ctor = (\<lambda>p. Inr p :: unit + string),
          JsonBackend_ctor = (\<lambda>p. Inr p),
          ConsulBackend_ctor = (\<lambda>h n. Inr (h, n, [])),
          ConsulBackend_setPrefix = (\<lambda>(h, n, ps) p. Inr (h, n, ps @ [p]))\<rparr>
     \<lparr>FLP_CONFIGURATION_BACKEND_FILE_JSON_ENABLED = False,
          FLP_CONFIGURATION_BACKEND_CONSUL_ENABLED = False\<rparr>
     (\<lambda>s. \<lparr>protocol = ''json'', host = ''etc'', path = ''/app/config.json'', port = - 1\<rparr>) ''json:///etc/app/config.json''
     = (Inl (runtime_error ''Back-end 'json' not enabled''), [])
   \<and> getConfiguration
     \<lparr>FileBackend_ctor = (\<lambda>p. Inr p :: unit + string),
          JsonBackend_ctor = (\<lambda>p. Inr p),
          ConsulBackend_ctor = (\<lambda>h n. Inr (h, n, [])),
          ConsulBackend_setPrefix = (\<lambda>(h, n, ps) p. Inr (h, n, ps @ [p]))\<rparr>
     \<lparr>FLP_CONFIGURATION_BACKEND_FILE_JSON_ENABLED = False,
          FLP_CONFIGURATION_BACKEND_CONSUL_ENABLED = False\<rparr>
     (\<lambda>s. \<lparr>protocol = ''consul'', host = ''localhost'', path = ''/app'', port = 8500\<rparr>) ''consul://localhost:8500/app''
     = (Inl (runtime_error ''Back-end 'consul' not enabled''), [])"
  using excluded_backend_not_enabled
    [of "(\<lambda>s. \<lparr>protocol = ''json'', host = ''etc'', path = ''/app/config.json'', port = - 1\<rparr>)" "''json:///etc/app/config.json''"
        "\<lparr>FLP_CONFIGURATION_BACKEND_FILE_JSON_ENABLED = False,
          FLP_CONFIGURATION_BACKEND_CONSUL_ENABLED = False\<rparr>"
        "\<lparr>FileBackend_ctor = (\<lambda>p. Inr p :: unit + string),
          JsonBackend_ctor = (\<lambda>p. Inr p),
          ConsulBackend_ctor = (\<lambda>h n. Inr (h, n, [])),
          ConsulBackend_setPrefix = (\<lambda>(h, n, ps) p. Inr (h, n, ps @ [p]))\<rparr>"]
    excluded_backend_not_enabled
    [of "(\<lambda>s. \<lparr>protocol = ''consul'', host = ''localhost'', path = ''/app'', port = 8500\<rparr>)" "''consul://localhost:8500/app''"
        "\<lparr>FLP_CONFIGURATION_BACKEND_FILE_JSON_ENABLED = False,
          FLP_CONFIGURATION_BACKEND_CONSUL_ENABLED = False\<rparr>"
        "\<lparr>FileBackend_ctor = (\<lambda>p. Inr p :: unit + string),
          JsonBackend_ctor = (\<lambda>p. Inr p),
          ConsulBackend_ctor = (\<lambda>h n. Inr (h, n, [])),
          ConsulBackend_setPrefix = (\<lambda>(h, n, ps) p. Inr (h, n, ps @ [p]))\<rparr>"]
  by simp

text \<open>
  Claim C5. In a build with the Consul back end, for a URI whose scheme is consul the
  factory first calls the Consul constructor with the host and the port of the parsed
  URI. When that constructor returns an object: if the path is empty, no other call is
  made (setPrefix is never called) and the object is returned as constructed; if the
  path is not empty, setPrefix is called once on the object, with the path, and the
  object after that call is returned.
\<close>

theorem consul_prefix_iff_path_nonempty:
  "protocol (ParseHttpUrl uri) = ''consul'' \<and> FLP_CONFIGURATION_BACKEND_CONSUL_ENABLED bld \<and>
   ConsulBackend_ctor env (host (ParseHttpUrl uri)) (port (ParseHttpUrl uri)) = Inr consul \<longrightarrow>
     (path (ParseHttpUrl uri) = [] \<longrightarrow>
        getConfiguration env bld ParseHttpUrl uri =
          (Inr (Some (ConsulBackend consul)),
           [Construct_Consul (host (ParseHttpUrl uri)) (port (ParseHttpUrl uri))]))
     \<and> (path (ParseHttpUrl uri) \<noteq> [] \<longrightarrow>
        getConfiguration env bld ParseHttpUrl uri =
          (case ConsulBackend_setPrefix env consul (path (ParseHttpUrl uri)) of
             Inl e \<Rightarrow> Inl (backend_failure e)
           | Inr consul' \<Rightarrow> Inr (Some (ConsulBackend consul')),
           [Construct_Consul (host (ParseHttpUrl uri)) (port (ParseHttpUrl uri)),
            Call_setPrefix (path (ParseHttpUrl uri))]))
     \<and> ((\<exists>p. Call_setPrefix p \<in> set (snd (getConfiguration env bld ParseHttpUrl uri)))
          \<longleftrightarrow> path (ParseHttpUrl uri) \<noteq> [])"
  by (auto simp: getConfiguration_consul getConsul_def split: sum.splits)

theorem consul_prefix_iff_path_nonempty_witness:
  "getConfiguration
     \<lparr>FileBackend_ctor = (\<lambda>p. Inr p :: unit + string),
          JsonBackend_ctor = (\<lambda>p. Inr p),
          ConsulBackend_ctor = (\<lambda>h n. Inr (h, n, [])),
          ConsulBackend_setPrefix = (\<lambda>(h, n, ps) p. Inr (h, n, ps @ [p]))\<rparr>
     \<lparr>FLP_CONFIGURATION_BACKEND_FILE_JSON_ENABLED = False,
          FLP_CONFIGURATION_BACKEND_CONSUL_ENABLED = True\<rparr>
     (\<lambda>s. \<lparr>protocol = ''consul'', host = ''localhost'', path = ''/app'', port = 8500\<rparr>) ''consul://localhost:8500/app''
     = (Inr (Some (ConsulBackend (''localhost'', 8500, [''/app'']))),
        [Construct_Consul ''localhost'' 8500, Call_setPrefix ''/app''])
   \<and> getConfiguration
     \<lparr>FileBackend_ctor = (\<lambda>p. Inr p :: unit + string),
          JsonBackend_ctor = (\<lambda>p. Inr p),
          ConsulBackend_ctor = (\<lambda>h n. Inr (h, n, [])),
          ConsulBackend_setPrefix = (\<lambda>(h, n, ps) p. Inr (h, n, ps @ [p]))\<rparr>
     \<lparr>FLP_CONFIGURATION_BACKEND_FILE_JSON_ENABLED = False,
          FLP_CONFIGURATION_BACKEND_CONSUL_ENABLED = True\<rparr>
     (\<lambda>s. \<lparr>protocol = ''consul'', host = ''localhost'', path = '''', port = 8500\<rparr>) ''consul://localhost:8500''
     = (Inr (Some (ConsulBackend (''localhost'', 8500, []))),
        [Construct_Consul ''localhost'' 8500])"
  using consul_prefix_iff_path_nonempty
    [of "(\<lambda>s. \<lparr>protocol = ''consul'', host = ''localhost'', path = ''/app'', port = 8500\<rparr>)" "''consul://localhost:8500/app''"
        "\<lparr>FLP_CONFIGURATION_BACKEND_FILE_JSON_ENABLED = False,
          FLP_CONFIGURATION_BACKEND_CONSUL_ENABLED = True\<rparr>"
        "\<lparr>FileBackend_ctor = (\<lambda>p. Inr p :: unit + string),
          JsonBackend_ctor = (\<lambda>p. Inr p),
          ConsulBackend_ctor = (\<lambda>h n. Inr (h, n, [])),
          ConsulBackend_setPrefix = (\<lambda>(h, n, ps) p. Inr (h, n, ps @ [p]))\<rparr>" "(''localhost'', 8500, [])"]
    consul_prefix_iff_path_nonempty
    [of "(\<lambda>s. \<lparr>protocol = ''consul'', host = ''localhost'', path = '''', port = 8500\<rparr>)" "''consul://localhost:8500''"
        "\<lparr>FLP_CONFIGURATION_BACKEND_FILE_JSON_ENABLED = False,
          FLP_CONFIGURATION_BACKEND_CONSUL_ENABLED = True\<rparr>"
        "\<lparr>FileBackend_ctor = (\<lambda>p. Inr p :: unit + string),
          JsonBackend_ctor = (\<lambda>p. Inr p),
          ConsulBackend_ctor = (\<lambda>h n. Inr (h, n, [])),
          ConsulBackend_setPrefix = (\<lambda>(h, n, ps) p. Inr (h, n, ps @ [p]))\<rparr>" "(''localhost'', 8500, [])"]
  by simp

text \<open>
  Claim C10. For a URI whose scheme is file, getConfiguration calls the FileBackend
  constructor and nothing else, whatever the build switches are: it returns the object
  the constructor built (or passes on what the constructor threw), and it throws none
  of the factory's own errors, so "not enabled" cannot occur for a file URI.
\<close>

theorem file_scheme_has_no_build_guard:
  "protocol (ParseHttpUrl uri) = ''file'' \<longrightarrow>
     getConfiguration env bld ParseHttpUrl uri =
       (case FileBackend_ctor env (''/'' @ host (ParseHttpUrl uri) @ path (ParseHttpUrl uri)) of
          Inl e \<Rightarrow> Inl (backend_failure e)
        | Inr f \<Rightarrow> Inr (Some (FileBackend f)),
        [Construct_File (''/'' @ host (ParseHttpUrl uri) @ path (ParseHttpUrl uri))])
     \<and> (\<forall>msg. fst (getConfiguration env bld ParseHttpUrl uri) \<noteq> Inl (runtime_error msg))
     \<and> getConfiguration env bld ParseHttpUrl uri = getConfiguration env bld' ParseHttpUrl uri"
  by (auto simp: getConfiguration_file getFile_def Let_def split: sum.splits)

theorem file_scheme_has_no_build_guard_witness:
  "getConfiguration
     \<lparr>FileBackend_ctor = (\<lambda>p. Inr p :: unit + string),
          JsonBackend_ctor = (\<lambda>p. Inr p),
          ConsulBackend_ctor = (\<lambda>h n. Inr (h, n, [])),
          ConsulBackend_setPrefix = (\<lambda>(h, n, ps) p. Inr (h, n, ps @ [p]))\<rparr>
     \<lparr>FLP_CONFIGURATION_BACKEND_FILE_JSON_ENABLED = False,
          FLP_CONFIGURATION_BACKEND_CONSUL_ENABLED = False\<rparr>
     (\<lambda>s. \<lparr>protocol = ''file'', host = ''etc'', path = ''/app/config.ini'', port = - 1\<rparr>) ''file:///etc/app/config.ini''
     = (Inr (Some (FileBackend ''/etc/app/config.ini'')),
        [Construct_File ''/etc/app/config.ini''])"
  using file_scheme_has_no_build_guard
    [of "(\<lambda>s. \<lparr>protocol = ''file'', host = ''etc'', path = ''/app/config.ini'', port = - 1\<rparr>)" "''file:///etc/app/config.ini''"
        "\<lparr>FileBackend_ctor = (\<lambda>p. Inr p :: unit + string),
          JsonBackend_ctor = (\<lambda>p. Inr p),
          ConsulBackend_ctor = (\<lambda>h n. Inr (h, n, [])),
          ConsulBackend_setPrefix = (\<lambda>(h, n, ps) p. Inr (h, n, ps @ [p]))\<rparr>"
        "\<lparr>FLP_CONFIGURATION_BACKEND_FILE_JSON_ENABLED = False,
          FLP_CONFIGURATION_BACKEND_CONSUL_ENABLED = False\<rparr>"
        "\<lparr>FLP_CONFIGURATION_BACKEND_FILE_JSON_ENABLED = False,
          FLP_CONFIGURATION_BACKEND_CONSUL_ENABLED = False\<rparr>"]
  by simp

section \<open>Properties of configFile::load\<close>

lemma ends_with_append:
  "length t \<le> length b \<Longrightarrow> ends_with (a @ b) t = ends_with b t"
  by (simp add: ends_with_def)

lemma ends_with_after_prefix_file:
  assumes "starts_with p ''file:''" and "length t = 4" and "hd t = CHR ''.''"
  shows "ends_with (drop 5 p) t = ends_with p t"
proof -
  from assms(1) have "take 5 p = ''file:''" by (simp add: starts_with_def eval_nat_numeral)
  then have p: "p = ''file:'' @ drop 5 p" by (metis append_take_drop_id)
  define fn where "fn = drop 5 p"
  from assms(2,3) obtain b c d where t: "t = [CHR ''.'', b, c, d]"
    by (cases t; cases "tl t"; cases "tl (tl t)"; cases "tl (tl (tl t))";
        cases "tl (tl (tl (tl t)))") auto
  have pf: "p = ''file:'' @ fn" using p fn_def by simp
  show ?thesis
  proof (cases "4 \<le> length fn")
    case True
    then have "ends_with (''file:'' @ fn) t = ends_with fn t"
      using assms(2) by (intro ends_with_append) simp
    then show ?thesis unfolding fn_def [symmetric] using pf by simp
  next
    case False
    then have "length fn < 4" by simp
    then consider "fn = []" | x where "fn = [x]" | x y where "fn = [x, y]"
      | x y z where "fn = [x, y, z]"
      by (cases fn; cases "tl fn"; cases "tl (tl fn)"; cases "tl (tl (tl fn))") auto
    then have "ends_with fn t = ends_with (''file:'' @ fn) t"
      by cases (simp_all add: ends_with_def t)
    then show ?thesis unfolding fn_def [symmetric] using pf by simp
  qed
qed

text \<open>
  Claim C9. For a path that is not the null pointer: if it does not begin with "file:",
  load throws "Invalid path prefix"; if it begins with "file:" and ends with neither
  ".ini" nor ".cfg", load throws "Invalid type in file name"; if it begins with "file:"
  and ends with ".ini" or ".cfg", load hands the rest of the path after "file:" to the INI
  parser and keeps the tree it read, and when the parser rejects the file, the string
  thrown is the parser's message, then " in ", the file name, " line " and the line
  number in decimal when the line is not 0, and the message, a space and the file name
  when it is 0.
\<close>

theorem load_accepts_file_ini_cfg:
  "(\<not> starts_with p ''file:'' \<longrightarrow> load read_ini pt (Some p) = Inl ''Invalid path prefix'')
   \<and> (starts_with p ''file:'' \<and> \<not> ends_with p ''.ini'' \<and> \<not> ends_with p ''.cfg'' \<longrightarrow>
        load read_ini pt (Some p) = Inl ''Invalid type in file name'')
   \<and> (starts_with p ''file:'' \<and> (ends_with p ''.ini'' \<or> ends_with p ''.cfg'') \<longrightarrow>
        (\<forall>pt'. read_ini (drop 5 p) pt = Inr pt' \<longrightarrow> load read_ini pt (Some p) = Inr pt')
        \<and> (\<forall>perr. read_ini (drop 5 p) pt = Inl perr \<longrightarrow>
              load read_ini pt (Some p) =
                Inl (if perr_line perr \<noteq> 0 then
                       perr_message perr @ '' in '' @ perr_filename perr @ '' line ''
                         @ show_nat (perr_line perr)
                     else perr_message perr @ '' '' @ perr_filename perr)))"
proof (cases "starts_with p ''file:''")
  case False
  then show ?thesis by (simp add: load_def PREFIX_FILE_def)
next
  case True
  have ini: "ends_with (drop 5 p) ''.ini'' = ends_with p ''.ini''"
    using True by (rule ends_with_after_prefix_file) simp_all
  have cfg: "ends_with (drop 5 p) ''.cfg'' = ends_with p ''.cfg''"
    using True by (rule ends_with_after_prefix_file) simp_all
  have l5: "length ''file:'' = 5" by simp
  have ld: "load read_ini pt (Some p) = load_suffixes read_ini pt (drop 5 p) [''.ini'', ''.cfg'']"
    using True unfolding load_def PREFIX_FILE_def SUFFIX_FILE_INI_def l5 by (simp add: Let_def)
  show ?thesis
    unfolding ld using True
    by (auto simp: ini cfg parse_error_text_def simp del: show_nat.simps)
qed

theorem load_accepts_file_ini_cfg_witness:
  "load (\<lambda>f t. Inl \<lparr>perr_message = ''bad'', perr_filename = f, perr_line = 12\<rparr>) (0::nat)
     (Some ''/etc/app/config.ini'') = Inl ''Invalid path prefix''
   \<and> load (\<lambda>f t. Inl \<lparr>perr_message = ''bad'', perr_filename = f, perr_line = 12\<rparr>) (0::nat)
     (Some ''file:/etc/app/config.json'') = Inl ''Invalid type in file name''
   \<and> load (\<lambda>f t. Inl \<lparr>perr_message = ''bad'', perr_filename = f, perr_line = 12\<rparr>) (0::nat)
     (Some ''file:/a.cfg'') = Inl ''bad in /a.cfg line 12''
   \<and> load (\<lambda>f t. Inr (Suc t)) (0::nat) (Some ''file:/a.ini'') = Inr 1"
proof -
  have d: "show_nat 12 = ''12''" by code_simp
  show ?thesis
    using load_accepts_file_ini_cfg
      [of "''/etc/app/config.ini''"
          "\<lambda>f t. Inl \<lparr>perr_message = ''bad'', perr_filename = f, perr_line = 12\<rparr>" "0::nat"]
      load_accepts_file_ini_cfg
      [of "''file:/etc/app/config.json''"
          "\<lambda>f t. Inl \<lparr>perr_message = ''bad'', perr_filename = f, perr_line = 12\<rparr>" "0::nat"]
      load_accepts_file_ini_cfg
      [of "''file:/a.cfg''"
          "\<lambda>f t. Inl \<lparr>perr_message = ''bad'', perr_filename = f, perr_line = 12\<rparr>" "0::nat"]
      load_accepts_file_ini_cfg
      [of "''file:/a.ini''" "\<lambda>f t. Inr (Suc t)" "0::nat"]
    by (simp add: starts_with_def ends_with_def d del: show_nat.simps)
qed

section \<open>Properties of configFile::getValue\<close>

text \<open>
  The class configFile has no optional results: a key without a node makes each
  getValue throw, and so does data that does not translate to the number asked for.
  A back end that reads a file through this class has to turn the first of these into
  the empty optional of its getString.
\<close>

lemma getValue_absent_key_throws:
  assumes "pt key = None"
  shows "getValue_string what pt key = Inl (what (ptree_bad_path key))"
    and "getValue_int what translate_int pt key = Inl (what (ptree_bad_path key))"
    and "getValue_float what translate_float pt key = Inl (what (ptree_bad_path key))"
  using assms by (simp_all add: getValue_string_def getValue_int_def getValue_float_def)

lemma getValue_present_key:
  assumes "pt key = Some d"
  shows "getValue_string what pt key = Inr d"
    and "getValue_int what translate_int pt key =
           (case translate_int d of None \<Rightarrow> Inl (what (ptree_bad_data d)) | Some n \<Rightarrow> Inr n)"
    and "getValue_float what translate_float pt key =
           (case translate_float d of None \<Rightarrow> Inl (what (ptree_bad_data d)) | Some x \<Rightarrow> Inr x)"
  using assms by (simp_all add: getValue_string_def getValue_int_def getValue_float_def)

section \<open>Properties of the contract\<close>

subsection \<open>Absent keys\<close>

lemma map_of_filter_other:
  "k \<noteq> k' \<Longrightarrow> map_of (filter (\<lambda>kv. fst kv \<noteq> k') xs) k = map_of xs k"
  by (induction xs) auto

lemma mStore_perform_other:
  "k \<notin> set (written b [x]) \<Longrightarrow> map_of (mStore (perform b x)) k = map_of (mStore b) k"
  by (cases x)
     (simp_all add: putString_def setPrefix_def setPathSeparator_def resetPathSeparator_def
        map_of_filter_other)

lemma written_Cons: "set (written b (x # xs)) = set (written b [x]) \<union> set (written (perform b x) xs)"
  by (cases x) simp_all

lemma mStore_run_unwritten:
  "k \<notin> set (written b xs) \<Longrightarrow> map_of (mStore (run b xs)) k = map_of (mStore b) k"
proof (induction xs arbitrary: b)
  case Nil
  then show ?case by simp
next
  case (Cons x xs)
  from Cons.prems have 1: "k \<notin> set (written b [x])" and 2: "k \<notin> set (written (perform b x) xs)"
    by (simp_all add: written_Cons [of b x xs])
  have "map_of (mStore (run b (x # xs))) k = map_of (mStore (run (perform b x) xs)) k" by simp
  also have "\<dots> = map_of (mStore (perform b x)) k" using 2 by (rule Cons.IH)
  also have "\<dots> = map_of (mStore b) k" using 1 by (rule mStore_perform_other)
  finally show ?case .
qed

text \<open>
  Claim C3. On the back end modelled from the specification: after any history of calls
  on an instance that started with an empty store, a path whose full key no putString
  of the history wrote has the empty optional as its getString and false as its exists;
  and in any state, a path whose full key is not in the store has the empty optional as
  its getString and false as its exists. The result of getString is an optional, with
  no error in its type: an absent key is the value None.
\<close>

theorem unwritten_path_is_absent:
  "(mStore b = [] \<and> fullKey (run b xs) p \<notin> set (written b xs) \<longrightarrow>
      getString (run b xs) p = None \<and> \<not> exists (run b xs) p)
   \<and> (fullKey b p \<notin> fst ` set (mStore b) \<longrightarrow> getString b p = None \<and> \<not> exists b p)"
proof (intro conjI impI)
  assume a: "mStore b = [] \<and> fullKey (run b xs) p \<notin> set (written b xs)"
  then have "map_of (mStore (run b xs)) (fullKey (run b xs) p) = map_of (mStore b) (fullKey (run b xs) p)"
    by (intro mStore_run_unwritten) simp
  with a show g: "getString (run b xs) p = None" by (simp add: getString_def)
  then show "\<not> exists (run b xs) p" by (simp add: exists_def)
next
  assume "fullKey b p \<notin> fst ` set (mStore b)"
  then show g: "getString b p = None" by (simp add: getString_def map_of_eq_None_iff)
  then show "\<not> exists b p" by (simp add: exists_def)
qed

theorem unwritten_path_is_absent_witness:
  "getString (run \<lparr>mStore = [], mPrefix = ''app'', mSeparator = CHR ''/''\<rparr>
      [PutString ''x'' ''1'', SetPathSeparator (CHR ''|''), PutString ''db|port'' ''5432'']) ''y'' = None
   \<and> \<not> exists (run \<lparr>mStore = [], mPrefix = ''app'', mSeparator = CHR ''/''\<rparr>
      [PutString ''x'' ''1'', SetPathSeparator (CHR ''|''), PutString ''db|port'' ''5432'']) ''y''
   \<and> getString (run \<lparr>mStore = [], mPrefix = ''app'', mSeparator = CHR ''/''\<rparr>
      [PutString ''x'' ''1'', SetPathSeparator (CHR ''|''), PutString ''db|port'' ''5432'']) ''x'' = Some ''1''
   \<and> getString \<lparr>mStore = [(''app/x'', ''1'')], mPrefix = ''app'', mSeparator = CHR ''/''\<rparr> ''y'' = None"
proof -
  have w: "written \<lparr>mStore = [], mPrefix = ''app'', mSeparator = CHR ''/''\<rparr>
      [PutString ''x'' ''1'', SetPathSeparator (CHR ''|''), PutString ''db|port'' ''5432'']
      = [''app/x'', ''app/db/port'']"
    by (simp add: putString_def setPathSeparator_def fullKey_def location_def segments_def
        DEFAULT_SEPARATOR_def)
  have k: "fullKey (run \<lparr>mStore = [], mPrefix = ''app'', mSeparator = CHR ''/''\<rparr>
      [PutString ''x'' ''1'', SetPathSeparator (CHR ''|''), PutString ''db|port'' ''5432'']) ''y''
      = ''app/y''"
    by (simp add: putString_def setPathSeparator_def fullKey_def location_def segments_def
        DEFAULT_SEPARATOR_def)
  have x: "getString (run \<lparr>mStore = [], mPrefix = ''app'', mSeparator = CHR ''/''\<rparr>
      [PutString ''x'' ''1'', SetPathSeparator (CHR ''|''), PutString ''db|port'' ''5432'']) ''x'' = Some ''1''"
    by (simp add: getString_def putString_def setPathSeparator_def fullKey_def location_def segments_def
        DEFAULT_SEPARATOR_def)
  have k2: "fullKey \<lparr>mStore = [(''app/x'', ''1'')], mPrefix = ''app'', mSeparator = CHR ''/''\<rparr> ''y'' = ''app/y''"
    by (simp add: fullKey_def location_def segments_def DEFAULT_SEPARATOR_def)
  show ?thesis
    using unwritten_path_is_absent
      [of "\<lparr>mStore = [], mPrefix = ''app'', mSeparator = CHR ''/''\<rparr>"
          "[PutString ''x'' ''1'', SetPathSeparator (CHR ''|''), PutString ''db|port'' ''5432'']" "''y''"]
      unwritten_path_is_absent
      [of "\<lparr>mStore = [(''app/x'', ''1'')], mPrefix = ''app'', mSeparator = CHR ''/''\<rparr>" "[]" "''y''"]
    unfolding w k k2 using x by simp
qed

subsection \<open>Path separators\<close>

lemma split_on_not_Nil: "split_on sep s \<noteq> []"
  by (induction s) (auto split: list.splits)

lemma split_on_replace:
  "CHR ''/'' \<notin> set p \<Longrightarrow>
   split_on sep p = split_on (CHR ''/'') (map (\<lambda>x. if x = sep then CHR ''/'' else x) p)"
  by (induction p) (auto split: list.splits)

lemma segments_replace:
  "CHR ''/'' \<notin> set p \<Longrightarrow>
   segments sep p = segments (CHR ''/'') (map (\<lambda>x. if x = sep then CHR ''/'' else x) p)"
  using split_on_replace [of p sep] by (simp add: segments_def)

text \<open>
  Claim C8. On the back end modelled from the specification: after setPathSeparator
  with the bar character, the path "a|b" has the same full key as the path "a/b" has on
  the instance with the default separator, so getString reads the same entry and
  putString leaves the same store; more generally a path without a slash addresses,
  under a custom separator, the location that the path with every separator replaced by
  a slash addresses under the default one. resetPathSeparator undoes setPathSeparator
  and leaves the slash as separator. The prefix given to setPrefix is split at slashes
  only, whatever the custom separator is and in whichever order the two were set. The
  factory hands the path of a consul URI to setPrefix, so on the back end it returns
  (when setPrefix is the modelled one) that path too is split at slashes only, also
  after a later setPathSeparator.
\<close>

theorem custom_separator_addresses_same_location:
  "fullKey (setPathSeparator b (CHR ''|'')) ''a|b'' = fullKey (resetPathSeparator b) ''a/b''
   \<and> getString (setPathSeparator b (CHR ''|'')) ''a|b'' = getString (resetPathSeparator b) ''a/b''
   \<and> mStore (putString (setPathSeparator b (CHR ''|'')) ''a|b'' v)
       = mStore (putString (resetPathSeparator b) ''a/b'' v)
   \<and> (CHR ''/'' \<notin> set p \<longrightarrow>
        fullKey (setPathSeparator b sep) p
          = fullKey (resetPathSeparator b) (map (\<lambda>x. if x = sep then CHR ''/'' else x) p))
   \<and> resetPathSeparator (setPathSeparator b sep) = resetPathSeparator b
   \<and> mSeparator (resetPathSeparator b) = CHR ''/''
   \<and> location (setPathSeparator (setPrefix b pre) sep) p
       = segments (CHR ''/'') pre @ segments sep p
   \<and> location (setPrefix (setPathSeparator b sep) pre) p
       = segments (CHR ''/'') pre @ segments sep p
   \<and> (protocol (ParseHttpUrl uri) = ''consul'' \<and> FLP_CONFIGURATION_BACKEND_CONSUL_ENABLED bld \<and>
        path (ParseHttpUrl uri) \<noteq> [] \<longrightarrow>
          (\<exists>c. fst (getConfiguration
                       \<lparr>FileBackend_ctor = file_ctor, JsonBackend_ctor = json_ctor,
                        ConsulBackend_ctor = (\<lambda>h n. Inr b),
                        ConsulBackend_setPrefix = (\<lambda>c pre. Inr (setPrefix c pre))\<rparr>
                       bld ParseHttpUrl uri) = Inr (Some (ConsulBackend c))
               \<and> location (setPathSeparator c sep) p
                   = segments (CHR ''/'') (path (ParseHttpUrl uri)) @ segments sep p))"
proof -
  have u: "protocol (ParseHttpUrl uri) = ''consul'' \<and> FLP_CONFIGURATION_BACKEND_CONSUL_ENABLED bld \<and>
        path (ParseHttpUrl uri) \<noteq> [] \<longrightarrow>
          (\<exists>c. fst (getConfiguration
                       \<lparr>FileBackend_ctor = file_ctor, JsonBackend_ctor = json_ctor,
                        ConsulBackend_ctor = (\<lambda>h n. Inr b),
                        ConsulBackend_setPrefix = (\<lambda>c pre. Inr (setPrefix c pre))\<rparr>
                       bld ParseHttpUrl uri) = Inr (Some (ConsulBackend c))
               \<and> location (setPathSeparator c sep) p
                   = segments (CHR ''/'') (path (ParseHttpUrl uri)) @ segments sep p)"
    by (simp add: getConfiguration_consul getConsul_def location_def setPathSeparator_def
        setPrefix_def DEFAULT_SEPARATOR_def)
  have k: "fullKey (setPathSeparator b (CHR ''|'')) ''a|b'' = fullKey (resetPathSeparator b) ''a/b''"
    by (simp add: fullKey_def location_def setPathSeparator_def resetPathSeparator_def
        segments_def DEFAULT_SEPARATOR_def)
  have s: "mStore (setPathSeparator b (CHR ''|'')) = mStore (resetPathSeparator b)"
    by (simp add: setPathSeparator_def resetPathSeparator_def)
  have g: "CHR ''/'' \<notin> set p \<Longrightarrow>
        fullKey (setPathSeparator b sep) p
          = fullKey (resetPathSeparator b) (map (\<lambda>x. if x = sep then CHR ''/'' else x) p)"
    using segments_replace [of p sep]
    by (simp add: fullKey_def location_def setPathSeparator_def resetPathSeparator_def
        DEFAULT_SEPARATOR_def)
  have r: "resetPathSeparator (setPathSeparator b sep) = resetPathSeparator b
   \<and> mSeparator (resetPathSeparator b) = CHR ''/''
   \<and> location (setPathSeparator (setPrefix b pre) sep) p
       = segments (CHR ''/'') pre @ segments sep p
   \<and> location (setPrefix (setPathSeparator b sep) pre) p
       = segments (CHR ''/'') pre @ segments sep p"
    by (simp add: location_def setPathSeparator_def resetPathSeparator_def setPrefix_def
        DEFAULT_SEPARATOR_def)
  have gp: "getString (setPathSeparator b (CHR ''|'')) ''a|b'' = getString (resetPathSeparator b) ''a/b''
   \<and> mStore (putString (setPathSeparator b (CHR ''|'')) ''a|b'' v)
       = mStore (putString (resetPathSeparator b) ''a/b'' v)"
    by (simp add: k s getString_def putString_def)
  show ?thesis
    using k gp g r u by blast
qed

theorem custom_separator_addresses_same_location_witness:
  "fullKey (setPathSeparator \<lparr>mStore = [], mPrefix = ''x|y'', mSeparator = CHR ''/''\<rparr> (CHR ''|'')) ''a|b|c''
     = ''x|y/a/b/c''
   \<and> fullKey (resetPathSeparator \<lparr>mStore = [], mPrefix = ''x|y'', mSeparator = CHR ''/''\<rparr>) ''a/b/c''
     = ''x|y/a/b/c''
   \<and> (\<exists>c. fst (getConfiguration
                \<lparr>FileBackend_ctor = (\<lambda>f. Inr f :: unit + string), JsonBackend_ctor = (\<lambda>j. Inr j),
                 ConsulBackend_ctor = (\<lambda>h n. Inr \<lparr>mStore = [], mPrefix = [], mSeparator = CHR ''/''\<rparr>),
                 ConsulBackend_setPrefix = (\<lambda>c pre. Inr (setPrefix c pre))\<rparr>
                \<lparr>FLP_CONFIGURATION_BACKEND_FILE_JSON_ENABLED = False,
                 FLP_CONFIGURATION_BACKEND_CONSUL_ENABLED = True\<rparr>
                (\<lambda>s. \<lparr>protocol = ''consul'', host = ''localhost'', path = ''x|y'', port = 8500\<rparr>)
                ''consul://localhost:8500/x|y'') = Inr (Some (ConsulBackend c))
          \<and> location (setPathSeparator c (CHR ''|'')) ''a|b|c'' = [''x|y'', ''a'', ''b'', ''c''])"
proof -
  have r: "fullKey (resetPathSeparator \<lparr>mStore = [], mPrefix = ''x|y'', mSeparator = CHR ''/''\<rparr>) ''a/b/c''
     = ''x|y/a/b/c''"
    by (simp add: fullKey_def location_def resetPathSeparator_def segments_def DEFAULT_SEPARATOR_def)
  have s1: "segments (CHR ''/'') ''x|y'' = [''x|y'']" by (simp add: segments_def)
  have s2: "segments (CHR ''|'') ''a|b|c'' = [''a'', ''b'', ''c'']" by (simp add: segments_def)
  note t1 = custom_separator_addresses_same_location
      [where b = "\<lparr>mStore = [], mPrefix = ''x|y'', mSeparator = CHR ''/''\<rparr>"
         and p = "''a|b|c''" and sep = "CHR ''|''" and v = "''1''" and pre = "''q''"
         and uri = "''consul://localhost:8500/x|y''"
         and file_ctor = "\<lambda>f. Inr f :: unit + string" and json_ctor = "\<lambda>j. Inr j :: unit + string"
         and ParseHttpUrl = "\<lambda>s. \<lparr>protocol = ''consul'', host = ''localhost'', path = ''x|y'', port = 8500\<rparr>"
         and bld = "\<lparr>FLP_CONFIGURATION_BACKEND_FILE_JSON_ENABLED = False,
                     FLP_CONFIGURATION_BACKEND_CONSUL_ENABLED = True\<rparr>"]
  note t2 = custom_separator_addresses_same_location
      [where b = "\<lparr>mStore = [], mPrefix = [], mSeparator = CHR ''/''\<rparr>"
         and p = "''a|b|c''" and sep = "CHR ''|''" and v = "''1''" and pre = "''q''"
         and uri = "''consul://localhost:8500/x|y''"
         and file_ctor = "\<lambda>f. Inr f :: unit + string" and json_ctor = "\<lambda>j. Inr j :: unit + string"
         and ParseHttpUrl = "\<lambda>s. \<lparr>protocol = ''consul'', host = ''localhost'', path = ''x|y'', port = 8500\<rparr>"
         and bld = "\<lparr>FLP_CONFIGURATION_BACKEND_FILE_JSON_ENABLED = False,
                     FLP_CONFIGURATION_BACKEND_CONSUL_ENABLED = True\<rparr>"]
  have a: "fullKey (setPathSeparator \<lparr>mStore = [], mPrefix = ''x|y'', mSeparator = CHR ''/''\<rparr> (CHR ''|'')) ''a|b|c''
     = ''x|y/a/b/c''"
    using t1 [THEN conjunct2, THEN conjunct2, THEN conjunct2, THEN conjunct1] by (simp add: r)
  have c: "\<exists>c. fst (getConfiguration
                \<lparr>FileBackend_ctor = (\<lambda>f. Inr f :: unit + string), JsonBackend_ctor = (\<lambda>j. Inr j),
                 ConsulBackend_ctor = (\<lambda>h n. Inr \<lparr>mStore = [], mPrefix = [], mSeparator = CHR ''/''\<rparr>),
                 ConsulBackend_setPrefix = (\<lambda>c pre. Inr (setPrefix c pre))\<rparr>
                \<lparr>FLP_CONFIGURATION_BACKEND_FILE_JSON_ENABLED = False,
                 FLP_CONFIGURATION_BACKEND_CONSUL_ENABLED = True\<rparr>
                (\<lambda>s. \<lparr>protocol = ''consul'', host = ''localhost'', path = ''x|y'', port = 8500\<rparr>)
                ''consul://localhost:8500/x|y'') = Inr (Some (ConsulBackend c))
          \<and> location (setPathSeparator c (CHR ''|'')) ''a|b|c'' = [''x|y'', ''a'', ''b'', ''c'']"
    using t2 [THEN conjunct2, THEN conjunct2, THEN conjunct2, THEN conjunct2, THEN conjunct2,
              THEN conjunct2, THEN conjunct2, THEN conjunct2]
    by (simp add: s1 s2)
  from a r c show ?thesis by blast
qed

subsection \<open>Typed getters\<close>

lemma lexical_cast_int_range:
  "lexical_cast_int s = Some n \<Longrightarrow> - 2147483648 \<le> n \<and> n \<le> 2147483647"
  by (auto simp: lexical_cast_int_def in_int_range_def split: list.splits if_splits option.splits)

text \<open>
  Claim C6. On the typed getters modelled from the specification: when getString gives
  the empty optional, getInt and getFloat give the empty optional; when getString gives
  a string that the strict parse rejects, they fail with the conversion error; when the
  parse accepts the string, they give the parsed number in the optional. The strict
  parse to int rejects "12abc", the empty string, "1.5" and the out-of-range
  "2147483648" rather than giving a truncated number or zero, and accepts "5432" and
  "-17".
\<close>

theorem typed_getters_convert_strictly:
  "(getString b p = None \<longrightarrow> getInt b p = Inr None \<and> getFloat lexical_cast_double b p = Inr None)
   \<and> (\<forall>s. getString b p = Some s \<longrightarrow>
        (lexical_cast_int s = None \<longrightarrow> getInt b p = Inl bad_lexical_cast)
        \<and> (\<forall>n. lexical_cast_int s = Some n \<longrightarrow> getInt b p = Inr (Some n))
        \<and> (lexical_cast_double s = None \<longrightarrow> getFloat lexical_cast_double b p = Inl bad_lexical_cast)
        \<and> (\<forall>x. lexical_cast_double s = Some x \<longrightarrow>
              getFloat lexical_cast_double b p = Inr (Some x)))
   \<and> lexical_cast_int ''12abc'' = None \<and> lexical_cast_int '''' = None
   \<and> lexical_cast_int ''1.5'' = None \<and> lexical_cast_int ''2147483648'' = None
   \<and> lexical_cast_int ''5432'' = Some 5432 \<and> lexical_cast_int ''-17'' = Some (- 17)"
proof -
  have c: "lexical_cast_int ''12abc'' = None \<and> lexical_cast_int '''' = None
   \<and> lexical_cast_int ''1.5'' = None \<and> lexical_cast_int ''2147483648'' = None
   \<and> lexical_cast_int ''5432'' = Some 5432 \<and> lexical_cast_int ''-17'' = Some (- 17)"
    by (simp add: lexical_cast_int_def unsigned_value_def is_digit_def in_int_range_def)
  show ?thesis using c by (simp add: getInt_def getFloat_def)
qed

theorem typed_getters_convert_strictly_witness:
  "getInt \<lparr>mStore = [(''app/db/port'', ''5432''), (''app/db/host'', ''localhost'')],
            mPrefix = ''app'', mSeparator = CHR ''/''\<rparr> ''db/port'' = Inr (Some 5432)
   \<and> getInt \<lparr>mStore = [(''app/db/port'', ''5432''), (''app/db/host'', ''localhost'')],
            mPrefix = ''app'', mSeparator = CHR ''/''\<rparr> ''db/host'' = Inl bad_lexical_cast
   \<and> getInt \<lparr>mStore = [(''app/db/port'', ''5432''), (''app/db/host'', ''localhost'')],
            mPrefix = ''app'', mSeparator = CHR ''/''\<rparr> ''db/name'' = Inr None
   \<and> getFloat lexical_cast_int
        \<lparr>mStore = [(''app/db/port'', ''5432''), (''app/db/host'', ''localhost'')],
         mPrefix = ''app'', mSeparator = CHR ''/''\<rparr> ''db/host'' = Inl bad_lexical_cast"
proof -
  have g1: "getString \<lparr>mStore = [(''app/db/port'', ''5432''), (''app/db/host'', ''localhost'')],
            mPrefix = ''app'', mSeparator = CHR ''/''\<rparr> ''db/port'' = Some ''5432''"
    by (simp add: getString_def fullKey_def location_def segments_def DEFAULT_SEPARATOR_def)
  have g2: "getString \<lparr>mStore = [(''app/db/port'', ''5432''), (''app/db/host'', ''localhost'')],
            mPrefix = ''app'', mSeparator = CHR ''/''\<rparr> ''db/host'' = Some ''localhost''"
    by (simp add: getString_def fullKey_def location_def segments_def DEFAULT_SEPARATOR_def)
  have g3: "getString \<lparr>mStore = [(''app/db/port'', ''5432''), (''app/db/host'', ''localhost'')],
            mPrefix = ''app'', mSeparator = CHR ''/''\<rparr> ''db/name'' = None"
    by (simp add: getString_def fullKey_def location_def segments_def DEFAULT_SEPARATOR_def)
  have c: "lexical_cast_int ''localhost'' = None"
    by (simp add: lexical_cast_int_def unsigned_value_def is_digit_def)
  show ?thesis
    using typed_getters_convert_strictly
      [of "\<lparr>mStore = [(''app/db/port'', ''5432''), (''app/db/host'', ''localhost'')],
            mPrefix = ''app'', mSeparator = CHR ''/''\<rparr>" "''db/port''" lexical_cast_int]
      typed_getters_convert_strictly
      [of "\<lparr>mStore = [(''app/db/port'', ''5432''), (''app/db/host'', ''localhost'')],
            mPrefix = ''app'', mSeparator = CHR ''/''\<rparr>" "''db/host''" lexical_cast_int]
      typed_getters_convert_strictly
      [of "\<lparr>mStore = [(''app/db/port'', ''5432''), (''app/db/host'', ''localhost'')],
            mPrefix = ''app'', mSeparator = CHR ''/''\<rparr>" "''db/name''" lexical_cast_int]
    unfolding g1 g2 g3 by (simp add: c)
qed

subsection \<open>Recursive get\<close>


lemma join_with_Cons_head: "join_with sep ((c # s) # ss) = c # join_with sep (s # ss)"
  by (cases ss) simp_all

lemma join_with_split_on: "join_with sep (split_on sep s) = s"
proof (induction s)
  case Nil
  show ?case by simp
next
  case (Cons c cs)
  obtain t ts where sp: "split_on sep cs = t # ts"
    using split_on_not_Nil [of sep cs] by (cases "split_on sep cs") auto
  show ?case
    using Cons.IH by (simp add: sp join_with_Cons_head)
qed

lemma join_with_segments: "join_with sep (segments sep s) = s"
  by (simp add: segments_def join_with_split_on)

lemma segments_inject: "segments sep s = segments sep t \<Longrightarrow> s = t"
  by (metis join_with_segments)

lemma map_of_put_child: "map_of (put_child s n cs) = (map_of cs)(s \<mapsto> n)"
  by (induction cs) (auto simp: fun_eq_iff)

lemma lookup_value_empty: "lookup_value (Node None []) q = None"
  by (cases q) (simp_all add: lookup_value_def)

lemma lookup_value_Nil: "lookup_value n [] = nodeValue n"
  by (simp add: lookup_value_def)

lemma lookup_value_Cons:
  "lookup_value n (s # segs) =
     (case map_of (children n) s of None \<Rightarrow> None | Some ch \<Rightarrow> lookup_value ch segs)"
  by (simp add: lookup_value_def split: option.splits)

lemma lookup_value_insert_at:
  "lookup_value (insert_at p v t) q = (if p = q then Some v else lookup_value t q)"
proof (induction p arbitrary: t q)
  case Nil
  show ?case by (cases q) (simp_all add: lookup_value_Nil lookup_value_Cons)
next
  case (Cons s segs)
  show ?case
  proof (cases q)
    case Nil
    then show ?thesis by (simp add: lookup_value_Nil)
  next
    case (Cons r qs)
    let ?ch = "case map_of (children t) s of None \<Rightarrow> Node None [] | Some ch \<Rightarrow> ch"
    have ih: "lookup_value (insert_at segs v ?ch) qs
        = (if segs = qs then Some v else lookup_value ?ch qs)"
      by (rule Cons.IH)
    have old: "lookup_value t (s # qs) = lookup_value ?ch qs"
      by (simp add: lookup_value_Cons lookup_value_empty split: option.splits)
    show ?thesis
    proof (cases "r = s")
      case True
      have "lookup_value (insert_at (s # segs) v t) (s # qs)
          = lookup_value (insert_at segs v ?ch) qs"
        by (simp add: lookup_value_Cons map_of_put_child)
      with ih old show ?thesis using True Cons by simp
    next
      case False
      then show ?thesis using Cons by (simp add: lookup_value_Cons map_of_put_child)
    qed
  qed
qed

lemma lookup_value_fold_other:
  "q \<notin> fst ` set xs \<Longrightarrow>
   lookup_value (fold (\<lambda>kv. insert_at (fst kv) (snd kv)) xs t) q = lookup_value t q"
  by (induction xs arbitrary: t) (auto simp: lookup_value_insert_at)

lemma lookup_value_fold_distinct:
  "distinct (map fst xs) \<Longrightarrow> (ks, v) \<in> set xs \<Longrightarrow>
   lookup_value (fold (\<lambda>kv. insert_at (fst kv) (snd kv)) xs t) ks = Some v"
proof (induction xs arbitrary: t)
  case Nil
  then show ?case by simp
next
  case (Cons x xs)
  show ?case
  proof (cases "(ks, v) = x")
    case True
    from Cons.prems(1) have "fst x \<notin> fst ` set xs" by simp
    moreover from True have "fst x = ks" by auto
    ultimately have "ks \<notin> fst ` set xs" by simp
    then have step: "lookup_value (fold (\<lambda>kv. insert_at (fst kv) (snd kv)) xs (insert_at ks v t)) ks
        = lookup_value (insert_at ks v t) ks"
      by (rule lookup_value_fold_other)
    from True have "x = (ks, v)" by simp
    then show ?thesis by (simp add: step lookup_value_insert_at)
  next
    case False
    with Cons.prems have "(ks, v) \<in> set xs" and "distinct (map fst xs)" by auto
    then show ?thesis using Cons.IH by simp
  qed
qed

lemma lookup_value_assemble:
  "distinct (map fst xs) \<Longrightarrow> (ks, v) \<in> set xs \<Longrightarrow> lookup_value (assemble xs) ks = Some v"
  unfolding assemble_def by (rule lookup_value_fold_distinct)

lemma lookup_node_append:
  "lookup_node t (p @ q) = (case lookup_node t p of None \<Rightarrow> None | Some n \<Rightarrow> lookup_node n q)"
  by (induction p arbitrary: t) (auto split: option.splits)

lemma strip_segments_Some: "strip_segments ps ks = Some r \<longleftrightarrow> ks = ps @ r"
  by (induction ps ks rule: strip_segments.induct) auto

lemma prefix_key_node:
  assumes "lookup_value t ks = Some v1" and "lookup_value t (ks @ s # rest) = Some v2"
  shows "\<exists>n. lookup_node t ks = Some n \<and> nodeValue n = Some v1 \<and> map_of (children n) s \<noteq> None"
proof -
  from assms(1) obtain n where n: "lookup_node t ks = Some n" "nodeValue n = Some v1"
    by (auto simp: lookup_value_def split: option.splits)
  from assms(2) n(1) have "lookup_node n (s # rest) \<noteq> None"
    by (auto simp: lookup_value_def lookup_node_append split: option.splits)
  then have "map_of (children n) s \<noteq> None" by (auto split: option.splits)
  with n show ?thesis by blast
qed


lemma map_fst_relabel: "map fst (map (\<lambda>kv. (f (fst kv), snd kv)) kvs) = map f (map fst kvs)"
  by (induction kvs) simp_all

lemma distinct_segment_keys:
  "distinct (map fst kvs) \<Longrightarrow>
   distinct (map fst (map (\<lambda>kv. (segments sep (fst kv), snd kv)) kvs))"
  unfolding map_fst_relabel
  by (simp add: distinct_map inj_on_def) (metis segments_inject)

lemma keyValuesToTree_lookup:
  assumes "distinct (map fst kvs)" and "(k, v) \<in> set kvs"
  shows "lookup_value (keyValuesToTree sep kvs) (segments sep k) = Some v"
proof -
  have "(segments sep k, v) \<in> set (map (\<lambda>kv. (segments sep (fst kv), snd kv)) kvs)"
    using assms(2) by force
  with distinct_segment_keys [OF assms(1), of sep] show ?thesis
    unfolding keyValuesToTree_def by (rule lookup_value_assemble)
qed

lemma map_fst_filter: "map fst (filter (\<lambda>kv. P (fst kv)) kvs) = filter P (map fst kvs)"
  by (induction kvs) simp_all

lemma distinct_relative_keys:
  assumes "distinct (map fst kvs)"
  shows "distinct (map fst (map (\<lambda>kv. (the (strip_segments loc (segments sep (fst kv))), snd kv))
           (filter (\<lambda>kv. strip_segments loc (segments sep (fst kv)) \<noteq> None) kvs)))"
proof -
  let ?P = "\<lambda>k. strip_segments loc (segments sep k) \<noteq> None"
  let ?g = "\<lambda>k. the (strip_segments loc (segments sep k))"
  have d: "distinct (filter ?P (map fst kvs))" using assms by simp
  have inj: "inj_on ?g (set (filter ?P (map fst kvs)))"
  proof (rule inj_onI)
    fix x y
    assume x: "x \<in> set (filter ?P (map fst kvs))" and y: "y \<in> set (filter ?P (map fst kvs))"
      and e: "?g x = ?g y"
    from x obtain r where r: "strip_segments loc (segments sep x) = Some r" by auto
    from y obtain r' where r': "strip_segments loc (segments sep y) = Some r'" by auto
    from e r r' have "r = r'" by simp
    with r r' have "segments sep x = segments sep y" by (simp add: strip_segments_Some)
    then show "x = y" by (rule segments_inject)
  qed
  show ?thesis
    unfolding map_fst_relabel [of ?g] map_fst_filter [of ?P]
    using d inj by (simp add: distinct_map)
qed

lemma map_filter_case:
  "List.map_filter (\<lambda>x. case g x of None \<Rightarrow> None | Some r \<Rightarrow> Some (h r x)) xs
     = map (\<lambda>x. h (the (g x)) x) (filter (\<lambda>x. g x \<noteq> None) xs)"
  by (induction xs) (auto split: option.splits)

lemma getRecursive_relative:
  "getRecursive b p =
     assemble
       (map (\<lambda>kv. (the (strip_segments (location b p) (segments DEFAULT_SEPARATOR (fst kv))),
                   snd kv))
          (getRecursiveMap b p))"
  unfolding getRecursive_def getRecursiveMap_def
  by (simp only: map_filter_case
      [where g = "\<lambda>kv. strip_segments (location b p) (segments DEFAULT_SEPARATOR (fst kv))"
         and h = "\<lambda>r kv. (r, snd kv)"])

lemma getRecursive_lookup:
  assumes "distinct (map fst (mStore b))" and "(k, v) \<in> set (mStore b)"
    and "segments DEFAULT_SEPARATOR k = location b p @ r"
  shows "lookup_value (getRecursive b p) r = Some v"
proof -
  have s: "strip_segments (location b p) (segments DEFAULT_SEPARATOR k) = Some r"
    using assms(3) by (simp add: strip_segments_Some)
  then have "(k, v) \<in> set (getRecursiveMap b p)"
    using assms(2) by (simp add: getRecursiveMap_def)
  then have "(\<lambda>kv. (the (strip_segments (location b p) (segments DEFAULT_SEPARATOR (fst kv))), snd kv)) (k, v)
      \<in> (\<lambda>kv. (the (strip_segments (location b p) (segments DEFAULT_SEPARATOR (fst kv))), snd kv))
          ` set (getRecursiveMap b p)"
    by (rule imageI)
  then have m: "(r, v) \<in> set (map (\<lambda>kv. (the (strip_segments (location b p) (segments DEFAULT_SEPARATOR (fst kv))), snd kv))
           (getRecursiveMap b p))"
    using s by simp
  have d: "distinct (map fst (map (\<lambda>kv. (the (strip_segments (location b p) (segments DEFAULT_SEPARATOR (fst kv))), snd kv))
           (getRecursiveMap b p)))"
    unfolding getRecursiveMap_def using assms(1) by (rule distinct_relative_keys)
  show ?thesis
    unfolding getRecursive_relative using d m by (rule lookup_value_assemble)
qed

text \<open>
  Claim C7. On the recursive get modelled from the specification: with the stored pairs
  app/db/host = localhost, app/db/port = 5432 and app/name = svc, getRecursive of "app"
  is a root with the child db, whose children are host = localhost and port = 5432, and
  the child name = svc, and getRecursiveMap of "app" is exactly the three pairs. In
  general, for pairs with distinct keys, when the segments of one key are a strict
  prefix of the segments of another, the node of the first key holds the value of the
  first key and has the child that leads to the second key, whose value is found at its
  own node; this holds of the tree assembled from flat pairs and of getRecursive.
\<close>

theorem recursive_get_builds_tree:
  "getRecursive
     \<lparr>mStore = [(''app/db/host'', ''localhost''), (''app/db/port'', ''5432''), (''app/name'', ''svc'')],
      mPrefix = [], mSeparator = CHR ''/''\<rparr> ''app''
     = Node None
         [(''db'', Node None [(''host'', Node (Some ''localhost'') []),
                              (''port'', Node (Some ''5432'') [])]),
          (''name'', Node (Some ''svc'') [])]
   \<and> getRecursiveMap
     \<lparr>mStore = [(''app/db/host'', ''localhost''), (''app/db/port'', ''5432''), (''app/name'', ''svc'')],
      mPrefix = [], mSeparator = CHR ''/''\<rparr> ''app''
     = [(''app/db/host'', ''localhost''), (''app/db/port'', ''5432''), (''app/name'', ''svc'')]
   \<and> (distinct (map fst kvs) \<and> (k1, v1) \<in> set kvs \<and> (k2, v2) \<in> set kvs \<and>
        segments sep k2 = segments sep k1 @ s # rest \<longrightarrow>
          lookup_value (keyValuesToTree sep kvs) (segments sep k1) = Some v1
          \<and> lookup_value (keyValuesToTree sep kvs) (segments sep k2) = Some v2
          \<and> (\<exists>n. lookup_node (keyValuesToTree sep kvs) (segments sep k1) = Some n
                 \<and> nodeValue n = Some v1 \<and> map_of (children n) s \<noteq> None))
   \<and> (distinct (map fst (mStore b)) \<and> (k1, v1) \<in> set (mStore b) \<and> (k2, v2) \<in> set (mStore b) \<and>
        segments DEFAULT_SEPARATOR k1 = location b p @ r \<and>
        segments DEFAULT_SEPARATOR k2 = location b p @ r @ s # rest \<longrightarrow>
          lookup_value (getRecursive b p) r = Some v1
          \<and> lookup_value (getRecursive b p) (r @ s # rest) = Some v2
          \<and> (\<exists>n. lookup_node (getRecursive b p) r = Some n
                 \<and> nodeValue n = Some v1 \<and> map_of (children n) s \<noteq> None))"
proof (intro conjI impI)
  show "getRecursive
     \<lparr>mStore = [(''app/db/host'', ''localhost''), (''app/db/port'', ''5432''), (''app/name'', ''svc'')],
      mPrefix = [], mSeparator = CHR ''/''\<rparr> ''app''
     = Node None
         [(''db'', Node None [(''host'', Node (Some ''localhost'') []),
                              (''port'', Node (Some ''5432'') [])]),
          (''name'', Node (Some ''svc'') [])]"
    by (simp add: getRecursive_def assemble_def location_def segments_def DEFAULT_SEPARATOR_def)
  show "getRecursiveMap
     \<lparr>mStore = [(''app/db/host'', ''localhost''), (''app/db/port'', ''5432''), (''app/name'', ''svc'')],
      mPrefix = [], mSeparator = CHR ''/''\<rparr> ''app''
     = [(''app/db/host'', ''localhost''), (''app/db/port'', ''5432''), (''app/name'', ''svc'')]"
    by (simp add: getRecursiveMap_def location_def segments_def DEFAULT_SEPARATOR_def)
next
  assume a: "distinct (map fst kvs) \<and> (k1, v1) \<in> set kvs \<and> (k2, v2) \<in> set kvs \<and>
        segments sep k2 = segments sep k1 @ s # rest"
  then show 1: "lookup_value (keyValuesToTree sep kvs) (segments sep k1) = Some v1"
    by (simp add: keyValuesToTree_lookup)
  from a show 2: "lookup_value (keyValuesToTree sep kvs) (segments sep k2) = Some v2"
    by (intro keyValuesToTree_lookup) simp_all
  from a 2 have "lookup_value (keyValuesToTree sep kvs) (segments sep k1 @ s # rest) = Some v2"
    by simp
  with 1 show "\<exists>n. lookup_node (keyValuesToTree sep kvs) (segments sep k1) = Some n
                 \<and> nodeValue n = Some v1 \<and> map_of (children n) s \<noteq> None"
    by (rule prefix_key_node)
next
  assume a: "distinct (map fst (mStore b)) \<and> (k1, v1) \<in> set (mStore b) \<and> (k2, v2) \<in> set (mStore b) \<and>
        segments DEFAULT_SEPARATOR k1 = location b p @ r \<and>
        segments DEFAULT_SEPARATOR k2 = location b p @ r @ s # rest"
  then show 1: "lookup_value (getRecursive b p) r = Some v1"
    by (intro getRecursive_lookup [of b k1]) simp_all
  from a show 2: "lookup_value (getRecursive b p) (r @ s # rest) = Some v2"
    by (intro getRecursive_lookup [of b k2]) simp_all
  from 1 2 show "\<exists>n. lookup_node (getRecursive b p) r = Some n
                 \<and> nodeValue n = Some v1 \<and> map_of (children n) s \<noteq> None"
    by (rule prefix_key_node)
qed

theorem recursive_get_builds_tree_witness:
  "lookup_value (keyValuesToTree (CHR ''/'') [(''db'', ''main''), (''db/host'', ''localhost'')]) [''db'']
     = Some ''main''
   \<and> lookup_value (keyValuesToTree (CHR ''/'') [(''db'', ''main''), (''db/host'', ''localhost'')])
       [''db'', ''host''] = Some ''localhost''
   \<and> keyValuesToTree (CHR ''/'') [(''db'', ''main''), (''db/host'', ''localhost'')]
     = Node None [(''db'', Node (Some ''main'') [(''host'', Node (Some ''localhost'') [])])]
   \<and> lookup_value (getRecursive
        \<lparr>mStore = [(''app/db'', ''main''), (''app/db/host'', ''localhost'')],
         mPrefix = ''app'', mSeparator = CHR ''/''\<rparr> [])
       [''db''] = Some ''main''
   \<and> lookup_value (getRecursive
        \<lparr>mStore = [(''app/db'', ''main''), (''app/db/host'', ''localhost'')],
         mPrefix = ''app'', mSeparator = CHR ''/''\<rparr> [])
       [''db'', ''host''] = Some ''localhost''"
proof -
  have t: "keyValuesToTree (CHR ''/'') [(''db'', ''main''), (''db/host'', ''localhost'')]
     = Node None [(''db'', Node (Some ''main'') [(''host'', Node (Some ''localhost'') [])])]"
    by (simp add: keyValuesToTree_def assemble_def segments_def)
  have s1: "segments (CHR ''/'') ''db'' = [''db'']" by (simp add: segments_def)
  have s2: "segments (CHR ''/'') ''db/host'' = [''db'', ''host'']" by (simp add: segments_def)
  have s3: "segments DEFAULT_SEPARATOR ''app/db'' = [''app'', ''db'']"
    by (simp add: segments_def DEFAULT_SEPARATOR_def)
  have s4: "segments DEFAULT_SEPARATOR ''app/db/host'' = [''app'', ''db'', ''host'']"
    by (simp add: segments_def DEFAULT_SEPARATOR_def)
  have l: "location \<lparr>mStore = [(''app/db'', ''main''), (''app/db/host'', ''localhost'')],
         mPrefix = ''app'', mSeparator = CHR ''/''\<rparr> [] = [''app'']"
    by (simp add: location_def segments_def DEFAULT_SEPARATOR_def)
  show ?thesis
    using recursive_get_builds_tree
      [where kvs = "[(''db'', ''main''), (''db/host'', ''localhost'')]" and sep = "CHR ''/''"
         and ?k1.0 = "''db''" and ?v1.0 = "''main''" and ?k2.0 = "''db/host''"
         and ?v2.0 = "''localhost''" and s = "''host''" and rest = "[]"
         and b = "\<lparr>mStore = [(''app/db'', ''main''), (''app/db/host'', ''localhost'')],
                   mPrefix = ''app'', mSeparator = CHR ''/''\<rparr>"
         and p = "[]" and r = "[''db'']"]
      recursive_get_builds_tree
      [where kvs = "[]" and sep = "CHR ''/''"
         and ?k1.0 = "''app/db''" and ?v1.0 = "''main''" and ?k2.0 = "''app/db/host''"
         and ?v2.0 = "''localhost''" and s = "''host''" and rest = "[]"
         and b = "\<lparr>mStore = [(''app/db'', ''main''), (''app/db/host'', ''localhost'')],
                   mPrefix = ''app'', mSeparator = CHR ''/''\<rparr>"
         and p = "[]" and r = "[''db'']"]
    unfolding s1 s2 s3 s4 l
    by (simp add: t)
qed

end
